theory Spec2Isabelle
  imports Main "HOL-Library.Word" "HOL-Library.AList" "HOL-Library.Log_Nat"
begin

unbundle bit_operations_syntax

section \<open>The AVR fuse reader of \<open>owfmodules.avrisp.read_fuses\<close>\<close>

text \<open>
  The module \<open>read_fuses.py\<close> reads the fuse and lock-bit bytes of an AVR
  microcontroller over SPI and decodes each byte with a per-device table of bit masks.
  Python integers are unbounded, so they are \<open>int\<close> here; \<open>x & y\<close> is \<open>AND\<close> and
  \<open>x >> n\<close> is \<open>drop_bit n x\<close> (both round as Python does on negative numbers).
  A call that raises is a value \<open>Inl e\<close>, a call that never returns is \<open>None\<close>.

  Modelled are \<open>count_trailing_zero\<close>, \<open>parse_fuse\<close>, \<open>read_fuses\<close> and
  \<open>read_lockbits\<close>. The drawing of the table in \<open>print_table\<close>, the detection of
  the device and the set-up of the connection in \<open>process\<close> and \<open>run\<close> belong to
  other libraries and are left out.
\<close>

subsection \<open>\<open>count_trailing_zero\<close>\<close>

text \<open>
  \<^verbatim>\<open>
  def count_trailing_zero(x):
      count = 0
      while (x & 1) == 0:
          x = x >> 1
          count += 1
      return count
  \<close>
  The loop has no exit for \<open>x = 0\<close>, so it is a partial function: \<open>None\<close> stands
  for a run that never returns. \<open>ctz_loop x count\<close> is the loop entered with the
  two variables at these values.
\<close>

partial_function (option) ctz_loop :: "int \<Rightarrow> nat \<Rightarrow> nat option" where
  "ctz_loop x count =
     (if x AND 1 = 0 then ctz_loop (drop_bit 1 x) (count + 1) else Some count)"

declare ctz_loop.simps [code]

definition count_trailing_zero :: "int \<Rightarrow> nat option" where
  "count_trailing_zero x = ctz_loop x 0"

subsection \<open>The builtins \<open>int(s, 16)\<close> and \<open>hex(n)\<close>\<close>

text \<open>
  The device tables hold every mask and every code as a hexadecimal string
  (\<open>"0x0F"\<close>), which \<open>parse_fuse\<close> converts with \<open>int(s, 16)\<close>. A character
  is a code point below 256. Surrounding white space is dropped, then come an
  optional sign, an optional \<open>0x\<close> or \<open>0X\<close>, and hexadecimal digits that may be
  separated by single underscores. \<open>None\<close> is Python's \<open>ValueError\<close>. The white
  space that \<open>int\<close> drops is the six ASCII blanks and, of the code points from 128
  on, the next-line character \<open>0x85\<close> and the no-break space \<open>0xA0\<close>.
\<close>

definition digit_value :: "char \<Rightarrow> nat option" where
  "digit_value c =
     (let n = (of_char c :: nat) in
      if 48 \<le> n \<and> n \<le> 57 then Some (n - 48)
      else if 97 \<le> n \<and> n \<le> 102 then Some (n - 87)
      else if 65 \<le> n \<and> n \<le> 70 then Some (n - 55)
      else None)"

fun digits16 :: "string \<Rightarrow> nat \<Rightarrow> nat option" where
  "digits16 [] acc = Some acc"
| "digits16 (c # cs) acc =
     (if c = CHR ''_'' then
        (case cs of
           [] \<Rightarrow> None
         | d # _ \<Rightarrow> if d = CHR ''_'' then None else digits16 cs acc)
      else
        (case digit_value c of
           None \<Rightarrow> None
         | Some v \<Rightarrow> digits16 cs (16 * acc + v)))"

definition is_space :: "char \<Rightarrow> bool" where
  "is_space c =
     (c \<in> set [CHR 0x09, CHR 0x0A, CHR 0x0B, CHR 0x0C, CHR 0x0D, CHR 0x20, CHR 0x85, CHR 0xA0])"

definition strip :: "string \<Rightarrow> string" where
  "strip s = rev (dropWhile is_space (rev (dropWhile is_space s)))"

definition int16_unsigned :: "string \<Rightarrow> nat option" where
  "int16_unsigned s =
     (let body =
        (if take 2 s = ''0x'' \<or> take 2 s = ''0X''
         then (if take 1 (drop 2 s) = ''_'' then drop 3 s else drop 2 s)
         else s)
      in if body = [] \<or> take 1 body = ''_'' then None else digits16 body 0)"

definition int16 :: "string \<Rightarrow> int option" where
  "int16 s =
     (case strip s of
        [] \<Rightarrow> None
      | c # cs \<Rightarrow>
          if c = CHR ''-'' then map_option (\<lambda>n. - int n) (int16_unsigned cs)
          else if c = CHR ''+'' then map_option int (int16_unsigned cs)
          else map_option int (int16_unsigned (c # cs)))"

text \<open>\<open>hex(n)\<close>: lower-case digits after \<open>0x\<close>, the sign in front.\<close>

fun hex_digits :: "nat \<Rightarrow> string" where
  "hex_digits n =
     (if n < 16 then [''0123456789abcdef'' ! n]
      else hex_digits (n div 16) @ [''0123456789abcdef'' ! (n mod 16)])"

declare hex_digits.simps [simp del]

definition hex :: "int \<Rightarrow> string" where
  "hex n = (if n < 0 then ''-0x'' @ hex_digits (nat (- n)) else ''0x'' @ hex_digits (nat n))"

subsection \<open>The device tables and the decoded fields\<close>

text \<open>
  A device description maps each fuse name to a dictionary with the keys \<open>"mask"\<close>,
  \<open>"caption"\<close> and \<open>"values"\<close>; \<open>"values"\<close> maps a name to a dictionary with the keys
  \<open>"value"\<close> and \<open>"caption"\<close>. Python dictionaries keep the order of insertion and
  \<open>parse_fuse\<close> walks them in that order, so they are association lists here. The
  record fields are the dictionary keys, with a prefix that tells the three
  dictionaries apart (\<open>v_\<close> for an entry of \<open>"values"\<close>, \<open>f_\<close> for a fuse, \<open>o_\<close> for
  an entry of the output).
\<close>

record value_entry =
  v_value :: string
  v_caption :: string

record fuse_entry =
  f_mask :: string
  f_caption :: string
  f_values :: "(string \<times> value_entry) list"

type_synonym fuse_dict = "(string \<times> fuse_entry) list"

text \<open>
  The \<open>"value"\<close> of an output entry is the string of the table for a field with
  \<open>"values"\<close>, and the integer 1 or 0 otherwise.
\<close>

datatype py_value = PyStr string | PyInt int

record decoded =
  o_descr :: string
  o_value_descr :: string
  o_value :: py_value
  o_mask :: string

type_synonym output_dict = "(string \<times> decoded) list"

datatype error = ValueError | IndexError

text \<open>The logger keeps what \<open>self.logger.handle(text, level)\<close> was given.\<close>

datatype level = ERROR | RESULT | INFO

type_synonym logger = "(level \<times> string) list"

subsection \<open>\<open>parse_fuse\<close>\<close>

text \<open>
  The inner loop with its \<open>else\<close> clause,
  \<^verbatim>\<open>
  for name, descr in fuse_dict[fuse_name]["values"].items():
      if int(descr["value"], 16) == result >> trailing_zero:
          output[fuse_name] = {...}
          break
  else:
      self.logger.handle(...)
  \<close>
  searches the entries in order: \<open>Inr (Some descr)\<close> is the entry at which it breaks,
  \<open>Inr None\<close> is the \<open>else\<close> clause, \<open>Inl ValueError\<close> a string that \<open>int\<close> rejects
  before any entry has matched.
\<close>

fun find_value :: "(string \<times> value_entry) list \<Rightarrow> int \<Rightarrow> error + value_entry option" where
  "find_value [] code = Inr None"
| "find_value ((name, descr) # rest) code =
     (case int16 (v_value descr) of
        None \<Rightarrow> Inl ValueError
      | Some c \<Rightarrow> if c = code then Inr (Some descr) else find_value rest code)"

text \<open>
  One round of the outer loop, for the item \<open>(fuse_name, values)\<close> of the table, from
  the output dictionary and the logger as they stand. \<open>output[fuse_name] = v\<close> replaces
  the value of a key that is there and adds a new key at the end. The local variable
  \<open>mask\<close> is \<open>mask'\<close>, since HOL has a constant of that name.
\<close>

definition parse_fuse_body ::
  "string \<times> fuse_entry \<Rightarrow> int \<Rightarrow> output_dict \<Rightarrow> logger \<Rightarrow> ((error + output_dict) \<times> logger) option" where
  "parse_fuse_body item fuse_value output lg =
     (case item of (fuse_name, values) \<Rightarrow>
        (case int16 (f_mask values) of
           None \<Rightarrow> Some (Inl ValueError, lg)
         | Some mask' \<Rightarrow>
             (let result = fuse_value AND mask' in
              if length (f_values values) > 0 then
                (case count_trailing_zero mask' of
                   None \<Rightarrow> None
                 | Some trailing_zero \<Rightarrow>
                     (case find_value (f_values values) (drop_bit trailing_zero result) of
                        Inl e \<Rightarrow> Some (Inl e, lg)
                      | Inr (Some descr) \<Rightarrow>
                          Some (Inr (AList.update fuse_name
                                  \<lparr>o_descr = f_caption values, o_value_descr = v_caption descr,
                                   o_value = PyStr (v_value descr), o_mask = f_mask values\<rparr>
                                  output), lg)
                      | Inr None \<Rightarrow>
                          Some (Inr output,
                                lg @ [(ERROR, ''Invalid value for '' @ fuse_name @ '' ==> got: ''
                                         @ hex (drop_bit trailing_zero result))])))
              else if result AND mask' = mask' then
                Some (Inr (AList.update fuse_name
                        \<lparr>o_descr = f_caption values, o_value_descr = ''Unprogrammed'',
                         o_value = PyInt 1, o_mask = f_mask values\<rparr> output), lg)
              else
                Some (Inr (AList.update fuse_name
                        \<lparr>o_descr = f_caption values, o_value_descr = ''Programmed'',
                         o_value = PyInt 0, o_mask = f_mask values\<rparr> output), lg))))"

fun parse_fuse_loop ::
  "fuse_dict \<Rightarrow> int \<Rightarrow> output_dict \<Rightarrow> logger \<Rightarrow> ((error + output_dict) \<times> logger) option" where
  "parse_fuse_loop [] fuse_value output lg = Some (Inr output, lg)"
| "parse_fuse_loop (item # rest) fuse_value output lg =
     (case parse_fuse_body item fuse_value output lg of
        None \<Rightarrow> None
      | Some (Inl e, lg') \<Rightarrow> Some (Inl e, lg')
      | Some (Inr output', lg') \<Rightarrow> parse_fuse_loop rest fuse_value output' lg')"

text \<open>
  \<open>parse_fuse lg fuse_dict fuse_value\<close> is the method called on an object whose logger
  holds \<open>lg\<close>: it gives what the call returns or raises, and the logger afterwards.
\<close>

definition parse_fuse ::
  "logger \<Rightarrow> fuse_dict \<Rightarrow> int \<Rightarrow> ((error + output_dict) \<times> logger) option" where
  "parse_fuse lg fuse_dict fuse_value = parse_fuse_loop fuse_dict fuse_value [] lg"

subsection \<open>\<open>read_fuses\<close> and \<open>read_lockbits\<close>\<close>

text \<open>
  The two methods talk to the target through the \<open>SPI\<close> object of the Octowire
  library, which is not part of this module. A session records the calls made on it
  (\<open>bus\<close>), the logger, and the tables handed to \<open>print_table\<close> with their headers
  (\<open>printed\<close>).
\<close>

datatype spi_call = Transmit "8 word list" | Receive nat

record session =
  bus :: "spi_call list"
  answers :: "nat \<Rightarrow> 8 word"
  received :: nat
  logged :: logger
  printed :: "(output_dict \<times> string list) list"

definition transmit :: "8 word list \<Rightarrow> session \<Rightarrow> session" where
  "transmit data s = s\<lparr>bus := bus s @ [Transmit data]\<rparr>"

text \<open>
  Modelled from the spec: the \<open>SPI\<close> class of the Octowire library is not in this
  repository. Following the spec's words (the transport returns exactly one response
  byte per command), \<open>receive n\<close> returns the next \<open>n\<close> bytes that the target answers;
  \<open>answers s k\<close> is the byte number \<open>k\<close> of the session.
\<close>

definition receive :: "nat \<Rightarrow> session \<Rightarrow> 8 word list \<times> session" where
  "receive n s =
     (map (answers s) [received s ..< received s + n],
      s\<lparr>bus := bus s @ [Receive n], received := received s + n\<rparr>)"

record device =
  fuse_low :: fuse_dict
  fuse_high :: fuse_dict
  fuse_extended :: fuse_dict
  lock_bits :: fuse_dict

text \<open>
  \<open>read_fuses\<close> runs the same four statements for the low, the high and the extended
  fuse, and \<open>read_lockbits\<close> once more for the lock bits:
  \<^verbatim>\<open>
  if len(device["fuse_low"]) > 0:
      spi_interface.transmit(read_low_fuse)
      low_fuse = spi_interface.receive(1)[0]
      self.logger.handle("Low fuse settings (Byte value: {})".format(hex(low_fuse)), self.logger.RESULT)
      self.print_table(self.parse_fuse(device["fuse_low"], low_fuse), ["Fuse name", "Status", "Value", "Mask"])
  \<close>
  \<open>read_block\<close> is this block for a command, the first words of the message, the
  headers and the table. An exception ends the method, with the session as it is then.
\<close>

definition read_block ::
  "8 word list \<Rightarrow> string \<Rightarrow> string list \<Rightarrow> fuse_dict \<Rightarrow> session
     \<Rightarrow> ((error + unit) \<times> session) option" where
  "read_block command title headers fuse_dict s =
     (if length fuse_dict > 0 then
        (let s1 = transmit command s;
             (data, s2) = receive 1 s1
         in case data of
              [] \<Rightarrow> Some (Inl IndexError, s2)
            | byte # _ \<Rightarrow>
                (let fuse = uint byte;
                     s3 = s2\<lparr>logged := logged s2 @
                            [(RESULT, title @ '' settings (Byte value: '' @ hex fuse @ '')'')]\<rparr>
                 in case parse_fuse (logged s3) fuse_dict fuse of
                      None \<Rightarrow> None
                    | Some (Inl e, lg) \<Rightarrow> Some (Inl e, s3\<lparr>logged := lg\<rparr>)
                    | Some (Inr output, lg) \<Rightarrow>
                        Some (Inr (), s3\<lparr>logged := lg,
                                         printed := printed s3 @ [(output, headers)]\<rparr>)))
      else Some (Inr (), s))"

definition read_fuses :: "session \<Rightarrow> device \<Rightarrow> ((error + unit) \<times> session) option" where
  "read_fuses s device =
     (case read_block [0x50, 0x00, 0x00] ''Low fuse''
             [''Fuse name'', ''Status'', ''Value'', ''Mask''] (fuse_low device) s of
        None \<Rightarrow> None
      | Some (Inl e, s1) \<Rightarrow> Some (Inl e, s1)
      | Some (Inr _, s1) \<Rightarrow>
          (case read_block [0x58, 0x08, 0x00] ''High fuse''
                  [''Fuse name'', ''Status'', ''Value'', ''Mask''] (fuse_high device) s1 of
             None \<Rightarrow> None
           | Some (Inl e, s2) \<Rightarrow> Some (Inl e, s2)
           | Some (Inr _, s2) \<Rightarrow>
               read_block [0x50, 0x08, 0x00] ''Extended fuse''
                 [''Fuse name'', ''Status'', ''Value'', ''Mask''] (fuse_extended device) s2))"

definition read_lockbits :: "session \<Rightarrow> device \<Rightarrow> ((error + unit) \<times> session) option" where
  "read_lockbits s device =
     read_block [0x58, 0x00, 0x00] ''Lock bits''
       [''Lock bit name'', ''Status'', ''Value'', ''Mask''] (lock_bits device) s"

subsection \<open>Well-formed tables\<close>

text \<open>
  The properties below are stated for tables as the device descriptions give them:
  every mask and every code is a string that \<open>int(s, 16)\<close> accepts (\<open>hex_ok\<close>), and a
  field with \<open>"values"\<close> has a mask that is not zero (\<open>zero_mask_enum\<close> is the
  opposite).
\<close>

definition hex_ok :: "fuse_entry \<Rightarrow> bool" where
  "hex_ok f =
     (int16 (f_mask f) \<noteq> None \<and>
      list_all (\<lambda>(name, descr). int16 (v_value descr) \<noteq> None) (f_values f))"

definition zero_mask_enum :: "fuse_entry \<Rightarrow> bool" where
  "zero_mask_enum f = (f_values f \<noteq> [] \<and> int16 (f_mask f) = Some 0)"

definition table_ok :: "fuse_dict \<Rightarrow> bool" where
  "table_ok fuse_dict = list_all (\<lambda>(fuse_name, f). hex_ok f \<and> \<not> zero_mask_enum f) fuse_dict"

subsection \<open>Sample tables\<close>

text \<open>
  Entries in the form of the device descriptions, used to run the functions on
  concrete input: a clock selection with two codes, a fuse of one bit, a field whose
  two entries carry the same code, and two entries with the mask zero.
\<close>

definition cksel :: fuse_entry where
  "cksel = \<lparr>f_mask = ''0x0F'', f_caption = ''Select Clock Source'',
            f_values = [(''EXTOSC'', \<lparr>v_value = ''0x02'', v_caption = ''Ext Osc''\<rparr>),
                        (''INTRC'', \<lparr>v_value = ''0x04'', v_caption = ''Int RC''\<rparr>)]\<rparr>"

definition spien :: fuse_entry where
  "spien = \<lparr>f_mask = ''0x20'', f_caption = ''Serial program downloading'', f_values = []\<rparr>"

definition bodlevel :: fuse_entry where
  "bodlevel = \<lparr>f_mask = ''0xC0'', f_caption = ''Brown-out level'',
               f_values = [(''BOD_OFF'', \<lparr>v_value = ''0x03'', v_caption = ''Disabled''\<rparr>),
                           (''BOD_4V3'', \<lparr>v_value = ''0x01'', v_caption = ''4.3 V''\<rparr>),
                           (''BOD_2V7'', \<lparr>v_value = ''0x01'', v_caption = ''2.7 V''\<rparr>)]\<rparr>"

definition nomask :: fuse_entry where
  "nomask = \<lparr>f_mask = ''0x00'', f_caption = ''Reserved'', f_values = []\<rparr>"

definition nomask_enum :: fuse_entry where
  "nomask_enum = \<lparr>f_mask = ''0x00'', f_caption = ''Reserved'',
                  f_values = [(''ZERO'', \<lparr>v_value = ''0x00'', v_caption = ''Zero''\<rparr>)]\<rparr>"

definition sample_table :: fuse_dict where
  "sample_table = [(''SUT_CKSEL'', cksel), (''SPIEN'', spien)]"

definition sample_device :: device where
  "sample_device = \<lparr>fuse_low = sample_table, fuse_high = [],
                     fuse_extended = [(''BODLEVEL'', bodlevel)],
                     lock_bits = [(''LB'', spien)]\<rparr>"

definition sample_session :: session where
  "sample_session = \<lparr>bus = [], answers = (\<lambda>k. 0x5A), received = 0, logged = [],
                      printed = []\<rparr>"

section \<open>Auxiliary facts\<close>

lemma and_one_zero_iff_even: "(x AND 1 = 0) = even (x::int)"
  by (simp add: and_one_eq even_iff_mod_2_eq_zero)

lemma ctz_loop_zero: "ctz_loop 0 count = None"
proof (cases "ctz_loop 0 count")
  case None
  then show ?thesis .
next
  case (Some r)
  have "(case (0, count) of (x, c) \<Rightarrow> \<lambda>r. x \<noteq> (0::int)) r"
  proof (rule ctz_loop.raw_induct [where P = "\<lambda>x c r. x \<noteq> 0" and xa = "(0, count)" and y = r])
    fix f :: "int \<Rightarrow> nat \<Rightarrow> nat option" and x :: int and c r :: nat
    assume IH: "\<And>x c r. f x c = Some r \<Longrightarrow> x \<noteq> 0"
      and eq: "(if x AND 1 = 0 then f (drop_bit 1 x) (c + 1) else Some c) = Some r"
    show "x \<noteq> 0"
    proof
      assume "x = 0"
      with eq have "f 0 (c + 1) = Some r" by simp
      then have "(0::int) \<noteq> 0" by (rule IH)
      then show False by simp
    qed
  next
    show "(case (0, count) of (x, xa) \<Rightarrow> ctz_loop x xa) = Some r"
      using Some by simp
  qed
  then show ?thesis by simp
qed

lemma ctz_loop_nonzero:
  "x \<noteq> 0 \<Longrightarrow>
   \<exists>n. ctz_loop x count = Some (count + n) \<and> (\<forall>i<n. \<not> bit x i) \<and> bit x n \<and> 2 ^ n \<le> \<bar>x\<bar>"
proof (induction x arbitrary: count rule: measure_induct_rule [of "\<lambda>x. nat \<bar>x\<bar>"])
  case (less x)
  show ?case
  proof (cases "x AND 1 = 0")
    case False
    then have "odd x" by (simp add: and_one_zero_iff_even)
    then have "ctz_loop x count = Some (count + 0) \<and> (\<forall>i<0. \<not> bit x i) \<and> bit x 0
        \<and> 2 ^ 0 \<le> \<bar>x\<bar>"
      using False less.prems by (simp add: ctz_loop.simps [of x count] bit_0)
    then show ?thesis by blast
  next
    case True
    then have ev: "even x" by (simp add: and_one_zero_iff_even)
    define y where "y = drop_bit 1 x"
    from ev obtain k where k: "x = 2 * k" by (rule evenE)
    have yk: "y = k" by (simp add: y_def k drop_bit_eq_div)
    from k less.prems have ynz: "y \<noteq> 0" and ylt: "nat \<bar>y\<bar> < nat \<bar>x\<bar>"
      and xy: "\<bar>x\<bar> = 2 * \<bar>y\<bar>"
      unfolding yk by simp_all
    from less.IH [OF ylt ynz, of "count + 1"] obtain n where
      n: "ctz_loop y (count + 1) = Some (count + 1 + n)" "\<forall>i<n. \<not> bit y i" "bit y n"
        "2 ^ n \<le> \<bar>y\<bar>"
      by blast
    have b: "bit x (Suc i) = bit y i" for i
      by (simp add: bit_Suc y_def drop_bit_eq_div)
    have "ctz_loop x count = Some (count + Suc n)"
      using True n(1) by (simp add: ctz_loop.simps [of x count] y_def)
    moreover have "\<forall>i<Suc n. \<not> bit x i"
    proof (intro allI impI)
      fix i assume "i < Suc n"
      then show "\<not> bit x i" using ev n(2) b by (cases i) (simp_all add: bit_0)
    qed
    moreover have "bit x (Suc n)" using n(3) b by simp
    moreover have "2 ^ Suc n \<le> \<bar>x\<bar>" using n(4) xy by simp
    ultimately show ?thesis by blast
  qed
qed

lemma count_trailing_zero_of_zero: "count_trailing_zero 0 = None"
  by (simp add: count_trailing_zero_def ctz_loop_zero)

lemma count_trailing_zero_Some: "x \<noteq> 0 \<Longrightarrow> \<exists>n. count_trailing_zero x = Some n"
  using ctz_loop_nonzero [of x 0] by (auto simp: count_trailing_zero_def)

lemma count_trailing_zero_bits:
  assumes low: "\<forall>i<tz. \<not> bit m i"
    and set: "bit m tz"
  shows "count_trailing_zero m = Some tz"
proof -
  from set have "m \<noteq> 0" by auto
  from ctz_loop_nonzero [OF this, of 0] obtain n where
    n: "count_trailing_zero m = Some n" "\<forall>i<n. \<not> bit m i" "bit m n"
    by (auto simp: count_trailing_zero_def)
  have "\<not> n < tz" using low n(3) by blast
  moreover have "\<not> tz < n" using n(2) set by blast
  ultimately have "n = tz" by simp
  with n(1) show ?thesis by simp
qed

lemmas int16_eval = int16_def strip_def is_space_def int16_unsigned_def digit_value_def

lemma find_value_first:
  assumes "\<forall>p\<in>set pre. \<exists>c. int16 (v_value (snd p)) = Some c \<and> c \<noteq> code"
    and "int16 (v_value descr) = Some code"
  shows "find_value (pre @ (name, descr) # post) code = Inr (Some descr)"
  using assms by (induction pre) auto

lemma find_value_none:
  "\<forall>p\<in>set vs. \<exists>c. int16 (v_value (snd p)) = Some c \<and> c \<noteq> code \<Longrightarrow>
   find_value vs code = Inr None"
  by (induction vs) auto

lemma find_value_hex_ok:
  "list_all (\<lambda>(name, descr). int16 (v_value descr) \<noteq> None) vs \<Longrightarrow>
   \<exists>r. find_value vs code = Inr r"
  by (induction vs) auto

lemma parse_fuse_body_ok:
  assumes "hex_ok f" and "\<not> zero_mask_enum f"
  shows "\<exists>out' w. parse_fuse_body (fuse_name, f) fuse_value out lg
           = Some (Inr out', lg @ w)
         \<and> (\<forall>k. k \<noteq> fuse_name \<longrightarrow> map_of out' k = map_of out k)"
proof -
  from assms(1) obtain m where m: "int16 (f_mask f) = Some m"
    by (auto simp: hex_ok_def)
  show ?thesis
  proof (cases "f_values f = []")
    case True
    with m show ?thesis
      by (simp add: parse_fuse_body_def Let_def update_conv')
  next
    case False
    with assms(2) m have "m \<noteq> 0" by (simp add: zero_mask_enum_def)
    then obtain tz where tz: "count_trailing_zero m = Some tz"
      using count_trailing_zero_Some by blast
    from assms(1) obtain r where
      r: "find_value (f_values f) (drop_bit tz (fuse_value AND m)) = Inr r"
      using find_value_hex_ok [of "f_values f"] by (auto simp: hex_ok_def)
    show ?thesis
    proof (cases r)
      case None
      with False m tz r show ?thesis
        by (simp add: parse_fuse_body_def Let_def)
    next
      case (Some descr)
      with False m tz r have "parse_fuse_body (fuse_name, f) fuse_value out lg
          = Some (Inr (AList.update fuse_name
                \<lparr>o_descr = f_caption f, o_value_descr = v_caption descr,
                 o_value = PyStr (v_value descr), o_mask = f_mask f\<rparr> out), lg @ [])"
        by (simp add: parse_fuse_body_def Let_def)
      then show ?thesis by (metis update_conv' fun_upd_other)
    qed
  qed
qed

lemma parse_fuse_body_zero:
  assumes "hex_ok f" and "zero_mask_enum f"
  shows "parse_fuse_body (fuse_name, f) fuse_value out lg = None"
  using assms
  by (simp add: parse_fuse_body_def zero_mask_enum_def count_trailing_zero_of_zero)

lemma parse_fuse_loop_append:
  "parse_fuse_loop (xs @ ys) fuse_value out lg =
     (case parse_fuse_loop xs fuse_value out lg of
        None \<Rightarrow> None
      | Some (Inl e, lg') \<Rightarrow> Some (Inl e, lg')
      | Some (Inr out', lg') \<Rightarrow> parse_fuse_loop ys fuse_value out' lg')"
  by (induction xs arbitrary: out lg) (auto split: option.splits sum.splits)

lemma parse_fuse_loop_ok:
  "table_ok t \<Longrightarrow>
   \<exists>out' w. parse_fuse_loop t fuse_value out lg = Some (Inr out', lg @ w)
     \<and> (\<forall>k. k \<notin> fst ` set t \<longrightarrow> map_of out' k = map_of out k)"
proof (induction t arbitrary: out lg)
  case Nil
  then show ?case by simp
next
  case (Cons item t)
  obtain fuse_name f where item: "item = (fuse_name, f)" by (cases item)
  from Cons.prems have f: "hex_ok f" "\<not> zero_mask_enum f" and t: "table_ok t"
    by (simp_all add: table_ok_def item)
  from parse_fuse_body_ok [OF f, of fuse_name fuse_value out lg] obtain out1 w1 where
    b: "parse_fuse_body (fuse_name, f) fuse_value out lg = Some (Inr out1, lg @ w1)"
    and k1: "\<forall>k. k \<noteq> fuse_name \<longrightarrow> map_of out1 k = map_of out k"
    by blast
  from Cons.IH [OF t, of out1 "lg @ w1"] obtain out2 w2 where
    l: "parse_fuse_loop t fuse_value out1 (lg @ w1) = Some (Inr out2, (lg @ w1) @ w2)"
    and k2: "\<forall>k. k \<notin> fst ` set t \<longrightarrow> map_of out2 k = map_of out1 k"
    by blast
  have "parse_fuse_loop (item # t) fuse_value out lg = Some (Inr out2, lg @ (w1 @ w2))"
    using b l by (simp add: item)
  moreover have "\<forall>k. k \<notin> fst ` set (item # t) \<longrightarrow> map_of out2 k = map_of out k"
    using k1 k2 by (simp add: item)
  ultimately show ?case by blast
qed

lemma parse_fuse_body_logger:
  "parse_fuse_body item fuse_value out lg =
     map_option (\<lambda>(r, w). (r, lg @ w)) (parse_fuse_body item fuse_value out [])"
  by (cases item)
     (simp add: parse_fuse_body_def Let_def split: option.splits sum.splits)

lemma parse_fuse_loop_logger:
  "parse_fuse_loop t fuse_value out lg =
     map_option (\<lambda>(r, w). (r, lg @ w)) (parse_fuse_loop t fuse_value out [])"
proof (induction t arbitrary: out lg)
  case Nil
  then show ?case by simp
next
  case (Cons item t)
  show ?case
  proof (cases "parse_fuse_body item fuse_value out []")
    case None
    then show ?thesis using parse_fuse_body_logger [of item fuse_value out lg] by simp
  next
    case (Some p)
    obtain r w where p: "p = (r, w)" by (cases p)
    with Some have b: "parse_fuse_body item fuse_value out lg = Some (r, lg @ w)"
      using parse_fuse_body_logger [of item fuse_value out lg] by simp
    show ?thesis
    proof (cases r)
      case (Inl e)
      with Some p b show ?thesis by simp
    next
      case (Inr out1)
      have "parse_fuse_loop t fuse_value out1 (lg @ w) =
          map_option (\<lambda>(r, w'). (r, lg @ w @ w')) (parse_fuse_loop t fuse_value out1 [])"
        using Cons.IH [of out1 "lg @ w"] by simp
      moreover have "parse_fuse_loop t fuse_value out1 w =
          map_option (\<lambda>(r, w'). (r, w @ w')) (parse_fuse_loop t fuse_value out1 [])"
        using Cons.IH [of out1 w] by simp
      ultimately show ?thesis using Some p b Inr
        by (simp add: option.map_comp comp_def split_def)
    qed
  qed
qed

lemma table_ok_append: "table_ok (xs @ ys) = (table_ok xs \<and> table_ok ys)"
  by (simp add: table_ok_def)

lemma table_ok_Cons:
  "table_ok ((fuse_name, f) # t) = (hex_ok f \<and> \<not> zero_mask_enum f \<and> table_ok t)"
  by (simp add: table_ok_def)

lemma parse_fuse_loop_emit:
  assumes ok: "table_ok t1" "table_ok t2"
    and fresh: "fuse_name \<notin> fst ` set t2"
    and body: "\<And>out lg. parse_fuse_body (fuse_name, f) b out lg
                 = Some (Inr (AList.update fuse_name v out), lg)"
  shows "\<exists>out' lg'. parse_fuse_loop (t1 @ (fuse_name, f) # t2) b out lg = Some (Inr out', lg')
           \<and> map_of out' fuse_name = Some v"
proof -
  from parse_fuse_loop_ok [OF ok(1), of b out lg] obtain out1 w1 where
    l1: "parse_fuse_loop t1 b out lg = Some (Inr out1, lg @ w1)"
    by blast
  from parse_fuse_loop_ok [OF ok(2), of b "AList.update fuse_name v out1" "lg @ w1"]
  obtain out2 w2 where
    l2: "parse_fuse_loop t2 b (AList.update fuse_name v out1) (lg @ w1)
           = Some (Inr out2, (lg @ w1) @ w2)"
    and k2: "\<forall>k. k \<notin> fst ` set t2 \<longrightarrow> map_of out2 k = map_of (AList.update fuse_name v out1) k"
    by blast
  have "parse_fuse_loop (t1 @ (fuse_name, f) # t2) b out lg = Some (Inr out2, (lg @ w1) @ w2)"
    using l1 l2 body by (simp add: parse_fuse_loop_append)
  moreover have "map_of out2 fuse_name = Some v"
    using k2 fresh by (simp add: update_conv')
  ultimately show ?thesis by blast
qed

lemma parse_fuse_emit:
  assumes ok: "table_ok fuse_dict"
    and dist: "distinct (map fst fuse_dict)"
    and mem: "(fuse_name, f) \<in> set fuse_dict"
    and body: "\<And>out lg. parse_fuse_body (fuse_name, f) b out lg
                 = Some (Inr (AList.update fuse_name v out), lg)"
  shows "\<exists>out' lg'. parse_fuse lg fuse_dict b = Some (Inr out', lg')
           \<and> map_of out' fuse_name = Some v"
proof -
  from mem obtain t1 t2 where t: "fuse_dict = t1 @ (fuse_name, f) # t2"
    by (auto dest: split_list)
  from dist have fresh: "fuse_name \<notin> fst ` set t2" by (simp add: t)
  from ok have oks: "table_ok t1" "table_ok t2"
    by (simp_all add: t table_ok_append table_ok_Cons)
  show ?thesis
    unfolding parse_fuse_def t
    by (rule parse_fuse_loop_emit [OF oks fresh body])
qed

lemma parse_fuse_body_match:
  assumes m: "int16 (f_mask f) = Some m"
    and tz: "count_trailing_zero m = Some tz"
    and vals: "f_values f = pre @ (name, descr) # post"
    and pre: "\<forall>p\<in>set pre. \<exists>c. int16 (v_value (snd p)) = Some c \<and> c \<noteq> drop_bit tz (b AND m)"
    and hit: "int16 (v_value descr) = Some (drop_bit tz (b AND m))"
  shows "parse_fuse_body (fuse_name, f) b out lg =
           Some (Inr (AList.update fuse_name
                   \<lparr>o_descr = f_caption f, o_value_descr = v_caption descr,
                    o_value = PyStr (v_value descr), o_mask = f_mask f\<rparr> out), lg)"
proof -
  have "find_value (f_values f) (drop_bit tz (b AND m)) = Inr (Some descr)"
    unfolding vals by (rule find_value_first [OF pre hit])
  with m tz vals show ?thesis
    by (simp add: parse_fuse_body_def Let_def)
qed

lemma parse_fuse_body_no_match:
  assumes m: "int16 (f_mask f) = Some m"
    and tz: "count_trailing_zero m = Some tz"
    and vals: "f_values f \<noteq> []"
    and none: "\<forall>p\<in>set (f_values f).
                 \<exists>c. int16 (v_value (snd p)) = Some c \<and> c \<noteq> drop_bit tz (b AND m)"
  shows "parse_fuse_body (fuse_name, f) b out lg =
           Some (Inr out, lg @ [(ERROR, ''Invalid value for '' @ fuse_name @ '' ==> got: ''
                                   @ hex (drop_bit tz (b AND m)))])"
proof -
  have "find_value (f_values f) (drop_bit tz (b AND m)) = Inr None"
    by (rule find_value_none [OF none])
  with m tz vals show ?thesis
    by (simp add: parse_fuse_body_def Let_def)
qed

lemma parse_fuse_body_single_bit:
  assumes m: "int16 (f_mask f) = Some m"
    and vals: "f_values f = []"
  shows "parse_fuse_body (fuse_name, f) b out lg =
           Some (Inr (AList.update fuse_name
                   (if b AND m = m
                    then \<lparr>o_descr = f_caption f, o_value_descr = ''Unprogrammed'',
                          o_value = PyInt 1, o_mask = f_mask f\<rparr>
                    else \<lparr>o_descr = f_caption f, o_value_descr = ''Programmed'',
                          o_value = PyInt 0, o_mask = f_mask f\<rparr>) out), lg)"
  using m vals by (simp add: parse_fuse_body_def Let_def)

lemma hex_ok_values:
  "hex_ok f \<Longrightarrow> p \<in> set (f_values f) \<Longrightarrow> \<exists>c. int16 (v_value (snd p)) = Some c"
  by (auto simp: hex_ok_def list_all_iff)

lemma table_ok_mem: "table_ok t \<Longrightarrow> (fuse_name, f) \<in> set t \<Longrightarrow> hex_ok f \<and> \<not> zero_mask_enum f"
  by (auto simp: table_ok_def list_all_iff)

lemmas sample_defs = sample_table_def cksel_def spien_def bodlevel_def nomask_def nomask_enum_def

lemmas ok_defs = table_ok_def hex_ok_def zero_mask_enum_def

lemma count_trailing_zero_15: "count_trailing_zero 15 = Some 0"
  by (simp add: count_trailing_zero_def ctz_loop.simps)

lemma count_trailing_zero_192: "count_trailing_zero 192 = Some 6"
  by (simp add: count_trailing_zero_def ctz_loop.simps)

lemma low_bits_192: "\<forall>i<6. \<not> bit (192::int) i"
proof (intro allI impI)
  fix i :: nat
  assume "i < 6"
  then consider "i = 0" | "i = 1" | "i = 2" | "i = 3" | "i = 4" | "i = 5" by linarith
  then show "\<not> bit (192::int) i" by cases (simp_all add: bit_iff_odd_drop_bit)
qed

lemma bit_6_192: "bit (192::int) 6"
  by (simp add: bit_iff_odd_drop_bit)

lemma sample_table_ok: "table_ok sample_table"
  by (simp add: sample_defs ok_defs int16_eval)

lemma parse_fuse_loop_zero_mask:
  "list_all (\<lambda>(fuse_name, f). hex_ok f) t \<Longrightarrow>
   list_ex (\<lambda>(fuse_name, f). zero_mask_enum f) t \<Longrightarrow>
   parse_fuse_loop t b out lg = None"
proof (induction t arbitrary: out lg)
  case Nil
  then show ?case by simp
next
  case (Cons item t)
  obtain fuse_name f where item: "item = (fuse_name, f)" by (cases item)
  from Cons.prems(1) have f: "hex_ok f" and t: "list_all (\<lambda>(fuse_name, f). hex_ok f) t"
    by (simp_all add: item)
  show ?case
  proof (cases "zero_mask_enum f")
    case True
    then show ?thesis
      using parse_fuse_body_zero [OF f True, of fuse_name b out lg] by (simp add: item)
  next
    case False
    with Cons.prems(2) have ex: "list_ex (\<lambda>(fuse_name, f). zero_mask_enum f) t"
      by (simp add: item)
    from parse_fuse_body_ok [OF f False, of fuse_name b out lg] obtain out1 w1 where
      "parse_fuse_body (fuse_name, f) b out lg = Some (Inr out1, lg @ w1)"
      by blast
    then show ?thesis
      using Cons.IH [OF t ex, of out1 "lg @ w1"] by (simp add: item)
  qed
qed

lemma table_ok_iff:
  "table_ok t =
     (list_all (\<lambda>(fuse_name, f). hex_ok f) t \<and> \<not> list_ex (\<lambda>(fuse_name, f). zero_mask_enum f) t)"
  by (induction t) (auto simp: table_ok_def)

lemma read_block_bus:
  "read_block command title headers t s = Some (r, s') \<Longrightarrow>
   bus s' = bus s @ (if t \<noteq> [] then [Transmit command, Receive 1] else [])"
  by (auto simp: read_block_def transmit_def receive_def Let_def
      split: if_splits option.splits sum.splits list.splits prod.splits)

lemma read_block_ok:
  assumes "table_ok t"
  shows "\<exists>s'. read_block command title headers t s = Some (Inr (), s')"
proof (cases "t = []")
  case True
  then show ?thesis by (simp add: read_block_def)
next
  case False
  define lg where "lg = logged s @
      [(RESULT, title @ '' settings (Byte value: '' @ hex (uint (answers s (received s))) @ '')'')]"
  from parse_fuse_loop_ok [OF assms, of "uint (answers s (received s))" "[]" lg]
  obtain out w where
    "parse_fuse lg t (uint (answers s (received s))) = Some (Inr out, lg @ w)"
    by (auto simp: parse_fuse_def)
  with False show ?thesis
    by (simp add: read_block_def transmit_def receive_def Let_def lg_def)
qed

section \<open>Properties of \<open>count_trailing_zero\<close>\<close>

text \<open>
  Claim C6. \<open>count_trailing_zero\<close> computes the number of low-order zero bits before
  the first set bit: for an argument that is not zero it returns the \<open>n\<close> such that
  the bits \<open>0\<close> to \<open>n - 1\<close> are clear and bit \<open>n\<close> is set. For the masks
  \<open>0x01\<close>, \<open>0x02\<close>, \<open>0x04\<close>, \<open>0x08\<close>, \<open>0x10\<close>, \<open>0x20\<close>, \<open>0x40\<close>, \<open>0x80\<close> it
  returns 0 to 7, and for \<open>0x06\<close> it returns 1.
\<close>

theorem count_trailing_zero_counts:
  "(x \<noteq> 0 \<longrightarrow>
      (\<exists>n. count_trailing_zero x = Some n \<and> (\<forall>i<n. \<not> bit x i) \<and> bit x n))
   \<and> count_trailing_zero 0x01 = Some 0
   \<and> count_trailing_zero 0x02 = Some 1
   \<and> count_trailing_zero 0x04 = Some 2
   \<and> count_trailing_zero 0x08 = Some 3
   \<and> count_trailing_zero 0x10 = Some 4
   \<and> count_trailing_zero 0x20 = Some 5
   \<and> count_trailing_zero 0x40 = Some 6
   \<and> count_trailing_zero 0x80 = Some 7
   \<and> count_trailing_zero 0x06 = Some 1"
proof -
  have "\<exists>n. count_trailing_zero x = Some n \<and> (\<forall>i<n. \<not> bit x i) \<and> bit x n" if "x \<noteq> 0"
    using ctz_loop_nonzero [OF that, of 0] by (auto simp: count_trailing_zero_def)
  moreover have "count_trailing_zero 0x01 = Some 0" "count_trailing_zero 0x02 = Some 1"
    "count_trailing_zero 0x04 = Some 2" "count_trailing_zero 0x08 = Some 3"
    "count_trailing_zero 0x10 = Some 4" "count_trailing_zero 0x20 = Some 5"
    "count_trailing_zero 0x40 = Some 6" "count_trailing_zero 0x80 = Some 7"
    "count_trailing_zero 0x06 = Some 1"
    by (simp_all add: count_trailing_zero_def ctz_loop.simps)
  ultimately show ?thesis by blast
qed

theorem count_trailing_zero_counts_witness:
  "(0x28 :: int) \<noteq> 0 \<and> count_trailing_zero 0x28 = Some 3
   \<and> \<not> bit (0x28 :: int) 0 \<and> \<not> bit (0x28 :: int) 1 \<and> \<not> bit (0x28 :: int) 2
   \<and> bit (0x28 :: int) 3"
proof -
  have v: "count_trailing_zero 0x28 = Some 3"
    by (simp add: count_trailing_zero_def ctz_loop.simps)
  have "(0x28 :: int) \<noteq> 0" by simp
  with count_trailing_zero_counts [of "0x28"] obtain n where
    n: "count_trailing_zero 0x28 = Some n" "\<forall>i<n. \<not> bit (0x28 :: int) i" "bit (0x28 :: int) n"
    by blast
  from n(1) v have "n = 3" by simp
  with n(2,3) v show ?thesis by simp
qed

text \<open>
  Claim C7. For every argument that is not zero the loop of \<open>count_trailing_zero\<close>
  stops: the function returns a count \<open>n\<close>, which is the number of rounds of the loop,
  and \<open>2 ^ n \<le> \<bar>x\<bar>\<close>, so that \<open>n\<close> is less than the bit length of \<open>x\<close>.
\<close>

theorem count_trailing_zero_terminates:
  assumes "x \<noteq> 0"
  shows "\<exists>n. count_trailing_zero x = Some n \<and> 2 ^ n \<le> \<bar>x\<bar> \<and> int n < bitlen \<bar>x\<bar>"
proof -
  from ctz_loop_nonzero [OF assms, of 0] obtain n where
    n: "count_trailing_zero x = Some n" "2 ^ n \<le> \<bar>x\<bar>"
    by (auto simp: count_trailing_zero_def)
  from assms have pos: "0 < \<bar>x\<bar>" by simp
  from bitlen_bounds [OF pos] have "\<bar>x\<bar> < 2 ^ nat (bitlen \<bar>x\<bar>)" by simp
  with n(2) have "(2::int) ^ n < 2 ^ nat (bitlen \<bar>x\<bar>)" by (rule le_less_trans)
  then have "n < nat (bitlen \<bar>x\<bar>)" by simp
  then have "int n < bitlen \<bar>x\<bar>" by simp
  with n show ?thesis by blast
qed

theorem count_trailing_zero_terminates_witness:
  "(0x28 :: int) \<noteq> 0 \<and> count_trailing_zero 0x28 = Some 3 \<and> (2::int) ^ 3 \<le> \<bar>0x28\<bar>
   \<and> 3 < bitlen \<bar>0x28\<bar>"
proof -
  have v: "count_trailing_zero 0x28 = Some 3"
    by (simp add: count_trailing_zero_def ctz_loop.simps)
  have nz: "(0x28 :: int) \<noteq> 0" by simp
  from count_trailing_zero_terminates [OF nz] obtain n where
    n: "count_trailing_zero 0x28 = Some n" "2 ^ n \<le> \<bar>0x28 :: int\<bar>" "int n < bitlen \<bar>0x28\<bar>"
    by blast
  from n(1) v have "n = 3" by simp
  with n(2,3) v show ?thesis by simp
qed

section \<open>Properties of \<open>parse_fuse\<close>\<close>

text \<open>
  Claim C1. Take a well-formed table with distinct names, a raw byte \<open>b\<close> and a field
  of the table with \<open>"values"\<close> whose mask is \<open>m\<close>, with \<open>tz\<close> the number of
  trailing zero bits of \<open>m\<close>: the bits of \<open>m\<close> below \<open>tz\<close> are clear and bit \<open>tz\<close>
  is set (so \<open>m\<close> is not zero). If \<open>(b & m) >> tz\<close> is the code of an entry of
  \<open>"values"\<close>, and of no entry before it, then \<open>parse_fuse\<close> returns a dictionary
  that binds the name of the field to the caption of the field, the caption and the
  \<open>"value"\<close> of that entry, and the mask of the field. The \<open>"value"\<close> bound is the
  one of the table as the table writes it, the hexadecimal string of the code, and
  not a number.
\<close>

theorem parse_fuse_enumerated:
  assumes "table_ok fuse_dict"
    and "distinct (map fst fuse_dict)"
    and "(fuse_name, f) \<in> set fuse_dict"
    and "int16 (f_mask f) = Some m"
    and "\<forall>i<tz. \<not> bit m i"
    and "bit m tz"
    and "f_values f = pre @ (name, descr) # post"
    and "int16 (v_value descr) = Some (drop_bit tz (b AND m))"
    and "\<forall>p\<in>set pre. int16 (v_value (snd p)) \<noteq> Some (drop_bit tz (b AND m))"
  shows "\<exists>out lg'. parse_fuse lg fuse_dict b = Some (Inr out, lg')
           \<and> map_of out fuse_name =
               Some \<lparr>o_descr = f_caption f, o_value_descr = v_caption descr,
                     o_value = PyStr (v_value descr), o_mask = f_mask f\<rparr>"
proof -
  have tz: "count_trailing_zero m = Some tz"
    by (rule count_trailing_zero_bits [OF assms(5,6)])
  from assms(1,3) have "hex_ok f" by (simp add: table_ok_mem)
  then have "\<forall>p\<in>set pre. \<exists>c. int16 (v_value (snd p)) = Some c"
    using hex_ok_values [of f] assms(7) by simp
  with assms(9) have pre:
    "\<forall>p\<in>set pre. \<exists>c. int16 (v_value (snd p)) = Some c \<and> c \<noteq> drop_bit tz (b AND m)"
    by fastforce
  show ?thesis
    by (rule parse_fuse_emit [OF assms(1,2,3)])
       (rule parse_fuse_body_match [OF assms(4) tz assms(7) pre assms(8)])
qed

theorem parse_fuse_enumerated_witness:
  "table_ok [(''SPIEN'', spien), (''BODLEVEL'', bodlevel)]
   \<and> distinct (map fst [(''SPIEN'', spien), (''BODLEVEL'', bodlevel)])
   \<and> (''BODLEVEL'', bodlevel) \<in> set [(''SPIEN'', spien), (''BODLEVEL'', bodlevel)]
   \<and> int16 (f_mask bodlevel) = Some 192
   \<and> \<not> bit (192::int) 0 \<and> \<not> bit (192::int) 1 \<and> \<not> bit (192::int) 2
   \<and> \<not> bit (192::int) 3 \<and> \<not> bit (192::int) 4 \<and> \<not> bit (192::int) 5
   \<and> bit (192::int) 6
   \<and> f_values bodlevel =
        [(''BOD_OFF'', \<lparr>v_value = ''0x03'', v_caption = ''Disabled''\<rparr>)]
        @ (''BOD_4V3'', \<lparr>v_value = ''0x01'', v_caption = ''4.3 V''\<rparr>)
        # [(''BOD_2V7'', \<lparr>v_value = ''0x01'', v_caption = ''2.7 V''\<rparr>)]
   \<and> int16 ''0x01'' = Some (drop_bit 6 (0x5A AND 192))
   \<and> int16 ''0x03'' \<noteq> Some (drop_bit 6 (0x5A AND 192))
   \<and> (\<exists>out lg'. parse_fuse [] [(''SPIEN'', spien), (''BODLEVEL'', bodlevel)] 0x5A
                     = Some (Inr out, lg')
         \<and> map_of out ''BODLEVEL'' =
             Some \<lparr>o_descr = ''Brown-out level'', o_value_descr = ''4.3 V'',
                   o_value = PyStr ''0x01'', o_mask = ''0xC0''\<rparr>)"
proof -
  let ?t = "[(''SPIEN'', spien), (''BODLEVEL'', bodlevel)]"
  have h0: "table_ok ?t" by (simp add: sample_defs ok_defs int16_eval)
  have h1: "distinct (map fst ?t)" by simp
  have h2: "(''BODLEVEL'', bodlevel) \<in> set ?t" by simp
  have h3: "int16 (f_mask bodlevel) = Some 192" by (simp add: sample_defs int16_eval)
  have h5: "f_values bodlevel =
        [(''BOD_OFF'', \<lparr>v_value = ''0x03'', v_caption = ''Disabled''\<rparr>)]
        @ (''BOD_4V3'', \<lparr>v_value = ''0x01'', v_caption = ''4.3 V''\<rparr>)
        # [(''BOD_2V7'', \<lparr>v_value = ''0x01'', v_caption = ''2.7 V''\<rparr>)]"
    by (simp add: sample_defs)
  have v1: "int16 ''0x01'' = Some (drop_bit 6 (0x5A AND 192))"
    and v3: "int16 ''0x03'' \<noteq> Some (drop_bit 6 (0x5A AND 192))"
    by (simp_all add: int16_eval)
  have h6: "int16 (v_value \<lparr>v_value = ''0x01'', v_caption = ''4.3 V''\<rparr>)
      = Some (drop_bit 6 (0x5A AND 192))"
    using v1 by simp
  have h7: "\<forall>p\<in>set [(''BOD_OFF'', \<lparr>v_value = ''0x03'', v_caption = ''Disabled''\<rparr>)].
      int16 (v_value (snd p)) \<noteq> Some (drop_bit 6 (0x5A AND 192))"
    using v3 by simp
  from parse_fuse_enumerated [OF h0 h1 h2 h3 low_bits_192 bit_6_192 h5 h6 h7, of "[]"]
  have "\<exists>out lg'. parse_fuse [] ?t 0x5A = Some (Inr out, lg')
         \<and> map_of out ''BODLEVEL'' =
             Some \<lparr>o_descr = ''Brown-out level'', o_value_descr = ''4.3 V'',
                   o_value = PyStr ''0x01'', o_mask = ''0xC0''\<rparr>"
    by (simp add: bodlevel_def)
  moreover have "\<not> bit (192::int) 0 \<and> \<not> bit (192::int) 1 \<and> \<not> bit (192::int) 2
   \<and> \<not> bit (192::int) 3 \<and> \<not> bit (192::int) 4 \<and> \<not> bit (192::int) 5"
    using low_bits_192 by simp
  ultimately show ?thesis
    using h0 h1 h2 h3 h5 v1 v3 bit_6_192 by simp
qed

text \<open>
  Claim C2. Take a well-formed table with distinct names, a raw byte \<open>b\<close> and a field
  of the table without \<open>"values"\<close>, whose mask is \<open>m\<close>. Then \<open>parse_fuse\<close> returns
  a dictionary that binds the name of the field: to the value 1 and \<open>"Unprogrammed"\<close>
  if \<open>b & m = m\<close>, to the value 0 and \<open>"Programmed"\<close> otherwise.
\<close>

theorem parse_fuse_single_bit:
  assumes "table_ok fuse_dict"
    and "distinct (map fst fuse_dict)"
    and "(fuse_name, f) \<in> set fuse_dict"
    and "int16 (f_mask f) = Some m"
    and "f_values f = []"
  shows "\<exists>out lg'. parse_fuse lg fuse_dict b = Some (Inr out, lg')
           \<and> map_of out fuse_name =
               Some (if b AND m = m
                     then \<lparr>o_descr = f_caption f, o_value_descr = ''Unprogrammed'',
                           o_value = PyInt 1, o_mask = f_mask f\<rparr>
                     else \<lparr>o_descr = f_caption f, o_value_descr = ''Programmed'',
                           o_value = PyInt 0, o_mask = f_mask f\<rparr>)"
  by (rule parse_fuse_emit [OF assms(1,2,3)])
     (rule parse_fuse_body_single_bit [OF assms(4,5)])

theorem parse_fuse_single_bit_witness:
  "table_ok sample_table \<and> distinct (map fst sample_table)
   \<and> (''SPIEN'', spien) \<in> set sample_table
   \<and> int16 (f_mask spien) = Some 32 \<and> f_values spien = []
   \<and> (\<exists>out lg'. parse_fuse [] sample_table 0x24 = Some (Inr out, lg')
         \<and> map_of out ''SPIEN'' =
             Some \<lparr>o_descr = ''Serial program downloading'', o_value_descr = ''Unprogrammed'',
                   o_value = PyInt 1, o_mask = ''0x20''\<rparr>)
   \<and> (\<exists>out lg'. parse_fuse [] sample_table 0x04 = Some (Inr out, lg')
         \<and> map_of out ''SPIEN'' =
             Some \<lparr>o_descr = ''Serial program downloading'', o_value_descr = ''Programmed'',
                   o_value = PyInt 0, o_mask = ''0x20''\<rparr>)"
proof -
  have h1: "distinct (map fst sample_table)" by (simp add: sample_defs)
  have h2: "(''SPIEN'', spien) \<in> set sample_table" by (simp add: sample_defs)
  have h3: "int16 (f_mask spien) = Some 32" by (simp add: sample_defs int16_eval)
  have h4: "f_values spien = []" by (simp add: sample_defs)
  from parse_fuse_single_bit [OF sample_table_ok h1 h2 h3 h4, of "[]" "0x24"]
  have "\<exists>out lg'. parse_fuse [] sample_table 0x24 = Some (Inr out, lg')
         \<and> map_of out ''SPIEN'' =
             Some \<lparr>o_descr = ''Serial program downloading'', o_value_descr = ''Unprogrammed'',
                   o_value = PyInt 1, o_mask = ''0x20''\<rparr>"
    by (simp add: sample_defs)
  moreover from parse_fuse_single_bit [OF sample_table_ok h1 h2 h3 h4, of "[]" "0x04"]
  have "\<exists>out lg'. parse_fuse [] sample_table 0x04 = Some (Inr out, lg')
         \<and> map_of out ''SPIEN'' =
             Some \<lparr>o_descr = ''Serial program downloading'', o_value_descr = ''Programmed'',
                   o_value = PyInt 0, o_mask = ''0x20''\<rparr>"
    by (simp add: sample_defs)
  ultimately show ?thesis
    using sample_table_ok h1 h2 h3 h4 by simp
qed

text \<open>
  Claim C3. Take a well-formed table with distinct names, a raw byte \<open>b\<close> and a field
  with \<open>"values"\<close> whose mask \<open>m\<close> has \<open>tz\<close> trailing zero bits (the bits of \<open>m\<close>
  below \<open>tz\<close> are clear and bit \<open>tz\<close> is set), none of whose codes is
  \<open>(b & m) >> tz\<close>. The fields before it leave a dictionary \<open>out1\<close> and a logger
  \<open>lg1\<close>; the field itself raises nothing, leaves the dictionary as it is and logs
  one message that names the field and the code; the fields after it are processed
  from there, and the dictionary that \<open>parse_fuse\<close> returns does not bind the name
  of the field.
\<close>

theorem parse_fuse_unmatched:
  assumes "table_ok (t1 @ (fuse_name, f) # t2)"
    and "distinct (map fst (t1 @ (fuse_name, f) # t2))"
    and "int16 (f_mask f) = Some m"
    and "\<forall>i<tz. \<not> bit m i"
    and "bit m tz"
    and "f_values f \<noteq> []"
    and "\<forall>p\<in>set (f_values f). int16 (v_value (snd p)) \<noteq> Some (drop_bit tz (b AND m))"
  shows "\<exists>out1 lg1 out lg'.
           parse_fuse lg t1 b = Some (Inr out1, lg1)
         \<and> parse_fuse lg (t1 @ [(fuse_name, f)]) b =
             Some (Inr out1, lg1 @ [(ERROR, ''Invalid value for '' @ fuse_name @ '' ==> got: ''
                                       @ hex (drop_bit tz (b AND m)))])
         \<and> parse_fuse lg (t1 @ (fuse_name, f) # t2) b =
             parse_fuse_loop t2 b out1
               (lg1 @ [(ERROR, ''Invalid value for '' @ fuse_name @ '' ==> got: ''
                          @ hex (drop_bit tz (b AND m)))])
         \<and> parse_fuse lg (t1 @ (fuse_name, f) # t2) b = Some (Inr out, lg')
         \<and> map_of out fuse_name = None"
proof -
  let ?msg = "(ERROR, ''Invalid value for '' @ fuse_name @ '' ==> got: ''
                 @ hex (drop_bit tz (b AND m)))"
  have tz: "count_trailing_zero m = Some tz"
    by (rule count_trailing_zero_bits [OF assms(4,5)])
  from assms(1) have ok: "table_ok t1" "hex_ok f" "table_ok t2"
    by (simp_all add: table_ok_append table_ok_Cons)
  from assms(2) have fresh: "fuse_name \<notin> fst ` set t1" "fuse_name \<notin> fst ` set t2"
    by auto
  from ok(2) assms(7) have none:
    "\<forall>p\<in>set (f_values f). \<exists>c. int16 (v_value (snd p)) = Some c \<and> c \<noteq> drop_bit tz (b AND m)"
    using hex_ok_values [of f] by fastforce
  have body: "parse_fuse_body (fuse_name, f) b out lg0 = Some (Inr out, lg0 @ [?msg])"
    for out lg0
    by (rule parse_fuse_body_no_match [OF assms(3) tz assms(6) none])
  from parse_fuse_loop_ok [OF ok(1), of b "[]" lg] obtain out1 w1 where
    l1: "parse_fuse_loop t1 b [] lg = Some (Inr out1, lg @ w1)"
    and k1: "\<forall>k. k \<notin> fst ` set t1 \<longrightarrow> map_of out1 k = map_of [] k"
    by blast
  from parse_fuse_loop_ok [OF ok(3), of b out1 "(lg @ w1) @ [?msg]"] obtain out2 w2 where
    l2: "parse_fuse_loop t2 b out1 ((lg @ w1) @ [?msg]) = Some (Inr out2, ((lg @ w1) @ [?msg]) @ w2)"
    and k2: "\<forall>k. k \<notin> fst ` set t2 \<longrightarrow> map_of out2 k = map_of out1 k"
    by blast
  have a: "parse_fuse lg t1 b = Some (Inr out1, lg @ w1)"
    using l1 by (simp add: parse_fuse_def)
  have b: "parse_fuse lg (t1 @ [(fuse_name, f)]) b = Some (Inr out1, (lg @ w1) @ [?msg])"
    using l1 body by (simp add: parse_fuse_def parse_fuse_loop_append)
  have c: "parse_fuse lg (t1 @ (fuse_name, f) # t2) b =
      parse_fuse_loop t2 b out1 ((lg @ w1) @ [?msg])"
    using l1 body by (simp add: parse_fuse_def parse_fuse_loop_append)
  have d: "parse_fuse lg (t1 @ (fuse_name, f) # t2) b = Some (Inr out2, ((lg @ w1) @ [?msg]) @ w2)"
    using c l2 by simp
  have e: "map_of out2 fuse_name = None"
    using k1 k2 fresh by simp
  from a b c d e show ?thesis by blast
qed

theorem parse_fuse_unmatched_witness:
  "table_ok ([(''SPIEN'', spien)] @ (''BODLEVEL'', bodlevel) # [(''SUT_CKSEL'', cksel)])
   \<and> distinct (map fst ([(''SPIEN'', spien)] @ (''BODLEVEL'', bodlevel)
                           # [(''SUT_CKSEL'', cksel)]))
   \<and> int16 (f_mask bodlevel) = Some 192
   \<and> \<not> bit (192::int) 0 \<and> \<not> bit (192::int) 1 \<and> \<not> bit (192::int) 2
   \<and> \<not> bit (192::int) 3 \<and> \<not> bit (192::int) 4 \<and> \<not> bit (192::int) 5
   \<and> bit (192::int) 6
   \<and> f_values bodlevel \<noteq> []
   \<and> int16 ''0x03'' \<noteq> Some (drop_bit 6 (0x82 AND 192))
   \<and> int16 ''0x01'' \<noteq> Some (drop_bit 6 (0x82 AND 192))
   \<and> parse_fuse [] [(''SPIEN'', spien)] 0x82 =
       Some (Inr [(''SPIEN'', \<lparr>o_descr = ''Serial program downloading'',
                               o_value_descr = ''Programmed'', o_value = PyInt 0,
                               o_mask = ''0x20''\<rparr>)], [])
   \<and> parse_fuse [] [(''SPIEN'', spien), (''BODLEVEL'', bodlevel), (''SUT_CKSEL'', cksel)] 0x82 =
       Some (Inr [(''SPIEN'', \<lparr>o_descr = ''Serial program downloading'',
                               o_value_descr = ''Programmed'', o_value = PyInt 0,
                               o_mask = ''0x20''\<rparr>),
                  (''SUT_CKSEL'', \<lparr>o_descr = ''Select Clock Source'',
                                   o_value_descr = ''Ext Osc'', o_value = PyStr ''0x02'',
                                   o_mask = ''0x0F''\<rparr>)],
             [(ERROR, ''Invalid value for BODLEVEL ==> got: 0x2'')])"
proof -
  have h1: "table_ok ([(''SPIEN'', spien)] @ (''BODLEVEL'', bodlevel) # [(''SUT_CKSEL'', cksel)])"
    by (simp add: sample_defs ok_defs int16_eval)
  have h2: "distinct (map fst ([(''SPIEN'', spien)] @ (''BODLEVEL'', bodlevel)
                                 # [(''SUT_CKSEL'', cksel)]))"
    by simp
  have h3: "int16 (f_mask bodlevel) = Some 192" by (simp add: sample_defs int16_eval)
  have h4: "f_values bodlevel \<noteq> []" by (simp add: sample_defs)
  have v3: "int16 ''0x03'' \<noteq> Some (drop_bit 6 (0x82 AND 192))"
    and v1: "int16 ''0x01'' \<noteq> Some (drop_bit 6 (0x82 AND 192))"
    by (simp_all add: int16_eval)
  have h5: "\<forall>p\<in>set (f_values bodlevel).
      int16 (v_value (snd p)) \<noteq> Some (drop_bit 6 (0x82 AND 192))"
    using v1 v3 by (simp add: sample_defs)
  have p1: "parse_fuse [] [(''SPIEN'', spien)] 0x82 =
       Some (Inr [(''SPIEN'', \<lparr>o_descr = ''Serial program downloading'',
                               o_value_descr = ''Programmed'', o_value = PyInt 0,
                               o_mask = ''0x20''\<rparr>)], [])"
    by (simp add: parse_fuse_def parse_fuse_body_def spien_def int16_eval)
  from parse_fuse_unmatched [OF h1 h2 h3 low_bits_192 bit_6_192 h4 h5, of "[]"]
  obtain out1 lg1 where
    a: "parse_fuse [] [(''SPIEN'', spien)] 0x82 = Some (Inr out1, lg1)"
    and c: "parse_fuse [] ([(''SPIEN'', spien)] @ (''BODLEVEL'', bodlevel)
                             # [(''SUT_CKSEL'', cksel)]) 0x82 =
      parse_fuse_loop [(''SUT_CKSEL'', cksel)] 0x82 out1
        (lg1 @ [(ERROR, ''Invalid value for '' @ ''BODLEVEL'' @ '' ==> got: ''
                   @ hex (drop_bit 6 (0x82 AND 192)))])"
    by blast
  from a p1 have o: "out1 = [(''SPIEN'', \<lparr>o_descr = ''Serial program downloading'',
                               o_value_descr = ''Programmed'', o_value = PyInt 0,
                               o_mask = ''0x20''\<rparr>)]" "lg1 = []"
    by simp_all
  have "parse_fuse [] [(''SPIEN'', spien), (''BODLEVEL'', bodlevel), (''SUT_CKSEL'', cksel)] 0x82 =
       Some (Inr [(''SPIEN'', \<lparr>o_descr = ''Serial program downloading'',
                               o_value_descr = ''Programmed'', o_value = PyInt 0,
                               o_mask = ''0x20''\<rparr>),
                  (''SUT_CKSEL'', \<lparr>o_descr = ''Select Clock Source'',
                                   o_value_descr = ''Ext Osc'', o_value = PyStr ''0x02'',
                                   o_mask = ''0x0F''\<rparr>)],
             [(ERROR, ''Invalid value for BODLEVEL ==> got: 0x2'')])"
    using c unfolding o
    by (simp add: parse_fuse_body_def cksel_def int16_eval hex_def hex_digits.simps
        count_trailing_zero_15)
  moreover have "\<not> bit (192::int) 0 \<and> \<not> bit (192::int) 1 \<and> \<not> bit (192::int) 2
   \<and> \<not> bit (192::int) 3 \<and> \<not> bit (192::int) 4 \<and> \<not> bit (192::int) 5"
    using low_bits_192 by simp
  ultimately show ?thesis
    using h1 h2 h3 h4 v1 v3 p1 bit_6_192 by simp
qed

text \<open>
  Claim C5. A field without \<open>"values"\<close> whose mask is zero does not make \<open>parse_fuse\<close>
  fail: after the fields before it, the field is bound to the value 1 and
  \<open>"Unprogrammed"\<close>, whatever the raw byte is, nothing is logged, and the fields after
  it are processed from there.
\<close>

theorem parse_fuse_zero_mask_single_bit:
  assumes "int16 (f_mask f) = Some 0"
    and "f_values f = []"
    and "parse_fuse lg t1 b = Some (Inr out1, lg1)"
  shows "parse_fuse lg (t1 @ [(fuse_name, f)]) b =
           Some (Inr (AList.update fuse_name
                   \<lparr>o_descr = f_caption f, o_value_descr = ''Unprogrammed'',
                    o_value = PyInt 1, o_mask = f_mask f\<rparr> out1), lg1)
         \<and> parse_fuse lg (t1 @ (fuse_name, f) # t2) b =
             parse_fuse_loop t2 b
               (AList.update fuse_name
                   \<lparr>o_descr = f_caption f, o_value_descr = ''Unprogrammed'',
                    o_value = PyInt 1, o_mask = f_mask f\<rparr> out1) lg1"
  using assms(3) parse_fuse_body_single_bit [OF assms(1,2), of fuse_name b out1 lg1]
  by (simp add: parse_fuse_def parse_fuse_loop_append)

theorem parse_fuse_zero_mask_single_bit_witness:
  "int16 (f_mask nomask) = Some 0 \<and> f_values nomask = []
   \<and> parse_fuse [] [(''SPIEN'', spien)] 0x5A =
       Some (Inr [(''SPIEN'', \<lparr>o_descr = ''Serial program downloading'',
                               o_value_descr = ''Programmed'', o_value = PyInt 0,
                               o_mask = ''0x20''\<rparr>)], [])
   \<and> parse_fuse [] ([(''SPIEN'', spien)] @ [(''RES'', nomask)]) 0x5A =
       Some (Inr [(''SPIEN'', \<lparr>o_descr = ''Serial program downloading'',
                               o_value_descr = ''Programmed'', o_value = PyInt 0,
                               o_mask = ''0x20''\<rparr>),
                  (''RES'', \<lparr>o_descr = ''Reserved'', o_value_descr = ''Unprogrammed'',
                             o_value = PyInt 1, o_mask = ''0x00''\<rparr>)], [])"
proof -
  have h1: "int16 (f_mask nomask) = Some 0" by (simp add: sample_defs int16_eval)
  have h2: "f_values nomask = []" by (simp add: sample_defs)
  have h3: "parse_fuse [] [(''SPIEN'', spien)] 0x5A =
       Some (Inr [(''SPIEN'', \<lparr>o_descr = ''Serial program downloading'',
                               o_value_descr = ''Programmed'', o_value = PyInt 0,
                               o_mask = ''0x20''\<rparr>)], [])"
    by (simp add: parse_fuse_def parse_fuse_body_def spien_def int16_eval)
  from parse_fuse_zero_mask_single_bit [OF h1 h2 h3, of "''RES''" "[]"]
  have "parse_fuse [] ([(''SPIEN'', spien)] @ [(''RES'', nomask)]) 0x5A =
       Some (Inr [(''SPIEN'', \<lparr>o_descr = ''Serial program downloading'',
                               o_value_descr = ''Programmed'', o_value = PyInt 0,
                               o_mask = ''0x20''\<rparr>),
                  (''RES'', \<lparr>o_descr = ''Reserved'', o_value_descr = ''Unprogrammed'',
                             o_value = PyInt 1, o_mask = ''0x00''\<rparr>)], [])"
    by (simp add: nomask_def)
  with h1 h2 h3 show ?thesis by simp
qed

text \<open>
  Claim C8. When two entries of \<open>"values"\<close> carry the code \<open>(b & m) >> tz\<close>, and no
  entry before the first of them does, \<open>parse_fuse\<close> binds the field to the caption
  and the \<open>"value"\<close> of the first of them in the order of the table; it raises nothing
  and logs nothing for the field.
\<close>

theorem parse_fuse_first_match:
  assumes "parse_fuse lg t1 b = Some (Inr out1, lg1)"
    and "int16 (f_mask f) = Some m"
    and "count_trailing_zero m = Some tz"
    and "f_values f = pre @ (name1, descr1) # mid @ (name2, descr2) # post"
    and "int16 (v_value descr1) = Some (drop_bit tz (b AND m))"
    and "int16 (v_value descr2) = Some (drop_bit tz (b AND m))"
    and "\<forall>p\<in>set pre. \<exists>c. int16 (v_value (snd p)) = Some c \<and> c \<noteq> drop_bit tz (b AND m)"
  shows "parse_fuse lg (t1 @ [(fuse_name, f)]) b =
           Some (Inr (AList.update fuse_name
                   \<lparr>o_descr = f_caption f, o_value_descr = v_caption descr1,
                    o_value = PyStr (v_value descr1), o_mask = f_mask f\<rparr> out1), lg1)
         \<and> parse_fuse lg (t1 @ (fuse_name, f) # t2) b =
             parse_fuse_loop t2 b
               (AList.update fuse_name
                   \<lparr>o_descr = f_caption f, o_value_descr = v_caption descr1,
                    o_value = PyStr (v_value descr1), o_mask = f_mask f\<rparr> out1) lg1"
  using assms(1)
    parse_fuse_body_match [OF assms(2,3,4,7,5), of fuse_name out1 lg1]
  by (simp add: parse_fuse_def parse_fuse_loop_append)

theorem parse_fuse_first_match_witness:
  "parse_fuse [] [(''SPIEN'', spien)] 0x5A =
       Some (Inr [(''SPIEN'', \<lparr>o_descr = ''Serial program downloading'',
                               o_value_descr = ''Programmed'', o_value = PyInt 0,
                               o_mask = ''0x20''\<rparr>)], [])
   \<and> int16 (f_mask bodlevel) = Some 192 \<and> count_trailing_zero 192 = Some 6
   \<and> f_values bodlevel =
        [(''BOD_OFF'', \<lparr>v_value = ''0x03'', v_caption = ''Disabled''\<rparr>)]
        @ (''BOD_4V3'', \<lparr>v_value = ''0x01'', v_caption = ''4.3 V''\<rparr>) # []
        @ (''BOD_2V7'', \<lparr>v_value = ''0x01'', v_caption = ''2.7 V''\<rparr>) # []
   \<and> int16 ''0x01'' = Some (drop_bit 6 (0x5A AND 192))
   \<and> int16 ''0x03'' = Some 3 \<and> 3 \<noteq> drop_bit 6 (0x5A AND 192 :: int)
   \<and> parse_fuse [] ([(''SPIEN'', spien)] @ [(''BODLEVEL'', bodlevel)]) 0x5A =
       Some (Inr [(''SPIEN'', \<lparr>o_descr = ''Serial program downloading'',
                               o_value_descr = ''Programmed'', o_value = PyInt 0,
                               o_mask = ''0x20''\<rparr>),
                  (''BODLEVEL'', \<lparr>o_descr = ''Brown-out level'', o_value_descr = ''4.3 V'',
                                  o_value = PyStr ''0x01'', o_mask = ''0xC0''\<rparr>)], [])"
proof -
  have h1: "parse_fuse [] [(''SPIEN'', spien)] 0x5A =
       Some (Inr [(''SPIEN'', \<lparr>o_descr = ''Serial program downloading'',
                               o_value_descr = ''Programmed'', o_value = PyInt 0,
                               o_mask = ''0x20''\<rparr>)], [])"
    by (simp add: parse_fuse_def parse_fuse_body_def spien_def int16_eval)
  have h2: "int16 (f_mask bodlevel) = Some 192" by (simp add: sample_defs int16_eval)
  have h3: "f_values bodlevel =
        [(''BOD_OFF'', \<lparr>v_value = ''0x03'', v_caption = ''Disabled''\<rparr>)]
        @ (''BOD_4V3'', \<lparr>v_value = ''0x01'', v_caption = ''4.3 V''\<rparr>) # []
        @ (''BOD_2V7'', \<lparr>v_value = ''0x01'', v_caption = ''2.7 V''\<rparr>) # []"
    by (simp add: sample_defs)
  have v1: "int16 ''0x01'' = Some (drop_bit 6 (0x5A AND 192))"
    and v3: "int16 ''0x03'' = Some 3" and ne: "3 \<noteq> drop_bit 6 (0x5A AND 192 :: int)"
    by (simp_all add: int16_eval)
  have h4: "int16 (v_value \<lparr>v_value = ''0x01'', v_caption = ''4.3 V''\<rparr>)
      = Some (drop_bit 6 (0x5A AND 192))"
    using v1 by simp
  have h5: "int16 (v_value \<lparr>v_value = ''0x01'', v_caption = ''2.7 V''\<rparr>)
      = Some (drop_bit 6 (0x5A AND 192))"
    using v1 by simp
  have h6: "\<forall>p\<in>set [(''BOD_OFF'', \<lparr>v_value = ''0x03'', v_caption = ''Disabled''\<rparr>)].
      \<exists>c. int16 (v_value (snd p)) = Some c \<and> c \<noteq> drop_bit 6 (0x5A AND 192)"
    using v3 ne by simp
  from parse_fuse_first_match [OF h1 h2 count_trailing_zero_192 h3 h4 h5 h6,
      of "''BODLEVEL''" "[]"]
  have "parse_fuse [] ([(''SPIEN'', spien)] @ [(''BODLEVEL'', bodlevel)]) 0x5A =
       Some (Inr [(''SPIEN'', \<lparr>o_descr = ''Serial program downloading'',
                               o_value_descr = ''Programmed'', o_value = PyInt 0,
                               o_mask = ''0x20''\<rparr>),
                  (''BODLEVEL'', \<lparr>o_descr = ''Brown-out level'', o_value_descr = ''4.3 V'',
                                  o_value = PyStr ''0x01'', o_mask = ''0xC0''\<rparr>)], [])"
    by (simp add: bodlevel_def)
  with h1 h2 h3 v1 v3 ne count_trailing_zero_192 show ?thesis by simp
qed

text \<open>
  Claim C9. \<open>parse_fuse\<close> depends on the table and the byte only: the logger is the
  one piece of state it touches, and it only adds to it. On a logger that holds
  \<open>lg\<close> the call ends as it does on an empty logger (it returns the same dictionary,
  raises the same error or does not return), and the messages it logs, in order, are
  the same. So any two calls on the same table and byte agree on both.
\<close>

theorem parse_fuse_deterministic:
  "parse_fuse lg fuse_dict b =
     map_option (\<lambda>(r, w). (r, lg @ w)) (parse_fuse [] fuse_dict b)"
  unfolding parse_fuse_def by (rule parse_fuse_loop_logger)

text \<open>
  Claim C4, as the spec has it: a table with a mask that is zero makes the decoding
  fail at once with a configuration error, before any field is decoded, wherever the
  entry stands and whether it has \<open>"values"\<close> or not. The code has no such check. A
  table whose one field has the mask zero and no \<open>"values"\<close> is decoded without any
  error, and the field is reported as \<open>"Unprogrammed"\<close>. With a field that has
  \<open>"values"\<close> and the mask zero no error is raised either: the call does not return.
\<close>

theorem zero_mask_accepted_counterexample:
  "int16 (f_mask nomask) = Some 0
   \<and> parse_fuse [] [(''RES'', nomask)] 0xFF =
       Some (Inr [(''RES'', \<lparr>o_descr = ''Reserved'', o_value_descr = ''Unprogrammed'',
                             o_value = PyInt 1, o_mask = ''0x00''\<rparr>)], [])
   \<and> int16 (f_mask nomask_enum) = Some 0
   \<and> parse_fuse [] [(''SPIEN'', spien), (''RES'', nomask_enum)] 0xFF = None"
  by (simp add: parse_fuse_def parse_fuse_body_def nomask_def nomask_enum_def spien_def
      int16_eval count_trailing_zero_of_zero)

text \<open>
  Claim C4, amended. On a table all of whose strings are hexadecimal numbers,
  \<open>parse_fuse\<close> raises no error, with or without a mask that is zero: it has no
  check of the mask. When every field with \<open>"values"\<close> has a mask that is not zero
  (and the names are distinct), the call returns a dictionary even if fields without
  \<open>"values"\<close> have the mask zero, and each such field is bound to the value 1 and
  \<open>"Unprogrammed"\<close>, wherever it stands in the table.
\<close>

theorem parse_fuse_no_mask_check:
  assumes "list_all (\<lambda>(fuse_name, f). hex_ok f) fuse_dict"
  shows "(\<forall>e lg'. parse_fuse lg fuse_dict b \<noteq> Some (Inl e, lg'))
       \<and> (table_ok fuse_dict \<and> distinct (map fst fuse_dict)
            \<and> (fuse_name, f) \<in> set fuse_dict
            \<and> int16 (f_mask f) = Some 0 \<and> f_values f = [] \<longrightarrow>
            (\<exists>out lg'. parse_fuse lg fuse_dict b = Some (Inr out, lg')
               \<and> map_of out fuse_name =
                   Some \<lparr>o_descr = f_caption f, o_value_descr = ''Unprogrammed'',
                         o_value = PyInt 1, o_mask = f_mask f\<rparr>))"
proof (intro conjI impI)
  show "\<forall>e lg'. parse_fuse lg fuse_dict b \<noteq> Some (Inl e, lg')"
  proof (cases "list_ex (\<lambda>(fuse_name, f). zero_mask_enum f) fuse_dict")
    case True
    then show ?thesis
      using parse_fuse_loop_zero_mask [OF assms True] by (simp add: parse_fuse_def)
  next
    case False
    with assms have "table_ok fuse_dict" by (simp add: table_ok_iff)
    from parse_fuse_loop_ok [OF this, of b "[]" lg] show ?thesis
      by (auto simp: parse_fuse_def)
  qed
next
  assume h: "table_ok fuse_dict \<and> distinct (map fst fuse_dict)
            \<and> (fuse_name, f) \<in> set fuse_dict
            \<and> int16 (f_mask f) = Some 0 \<and> f_values f = []"
  then have body: "parse_fuse_body (fuse_name, f) b out lg0 =
      Some (Inr (AList.update fuse_name
              \<lparr>o_descr = f_caption f, o_value_descr = ''Unprogrammed'',
               o_value = PyInt 1, o_mask = f_mask f\<rparr> out), lg0)" for out lg0
    using parse_fuse_body_single_bit [of f 0 fuse_name b out lg0] by simp
  from h show "\<exists>out lg'. parse_fuse lg fuse_dict b = Some (Inr out, lg')
               \<and> map_of out fuse_name =
                   Some \<lparr>o_descr = f_caption f, o_value_descr = ''Unprogrammed'',
                         o_value = PyInt 1, o_mask = f_mask f\<rparr>"
    using parse_fuse_emit [of fuse_dict fuse_name f b _ lg, OF _ _ _ body] by blast
qed

theorem parse_fuse_no_mask_check_witness:
  "list_all (\<lambda>(fuse_name, f). hex_ok f) [(''RES'', nomask), (''SUT_CKSEL'', cksel)]
   \<and> table_ok [(''RES'', nomask), (''SUT_CKSEL'', cksel)]
   \<and> distinct (map fst [(''RES'', nomask), (''SUT_CKSEL'', cksel)])
   \<and> (''RES'', nomask) \<in> set [(''RES'', nomask), (''SUT_CKSEL'', cksel)]
   \<and> int16 (f_mask nomask) = Some 0 \<and> f_values nomask = []
   \<and> parse_fuse [] [(''RES'', nomask), (''SUT_CKSEL'', cksel)] 0x02 \<noteq> Some (Inl ValueError, [])
   \<and> (\<exists>out lg'. parse_fuse [] [(''RES'', nomask), (''SUT_CKSEL'', cksel)] 0x02
                     = Some (Inr out, lg')
         \<and> map_of out ''RES'' =
             Some \<lparr>o_descr = ''Reserved'', o_value_descr = ''Unprogrammed'',
                   o_value = PyInt 1, o_mask = ''0x00''\<rparr>)"
proof -
  let ?t = "[(''RES'', nomask), (''SUT_CKSEL'', cksel)]"
  have h: "list_all (\<lambda>(fuse_name, f). hex_ok f) ?t"
    by (simp add: sample_defs ok_defs int16_eval)
  have ok: "table_ok ?t"
    by (simp add: sample_defs ok_defs int16_eval)
  have d: "distinct (map fst ?t)" by simp
  have m: "(''RES'', nomask) \<in> set ?t" by simp
  have z: "int16 (f_mask nomask) = Some 0" by (simp add: sample_defs int16_eval)
  have v: "f_values nomask = []" by (simp add: sample_defs)
  note r = parse_fuse_no_mask_check [OF h, of "[]" "0x02" "''RES''" nomask]
  from r have "parse_fuse [] ?t 0x02 \<noteq> Some (Inl ValueError, [])"
    by blast
  moreover from r ok d m z v
  have "\<exists>out lg'. parse_fuse [] ?t 0x02 = Some (Inr out, lg')
         \<and> map_of out ''RES'' =
             Some \<lparr>o_descr = ''Reserved'', o_value_descr = ''Unprogrammed'',
                   o_value = PyInt 1, o_mask = ''0x00''\<rparr>"
    by (simp add: nomask_def)
  ultimately show ?thesis using h ok d m z v by blast
qed

section \<open>Properties of \<open>read_fuses\<close> and \<open>read_lockbits\<close>\<close>

text \<open>
  Claim C10. For a device whose four tables are well-formed, \<open>read_fuses\<close> and
  \<open>read_lockbits\<close> return, and the calls they make on the SPI interface are, in this
  order and for the tables that are not empty only: \<open>50 00 00\<close> for the low fuse,
  \<open>58 08 00\<close> for the high fuse, \<open>50 08 00\<close> for the extended fuse, and
  \<open>58 00 00\<close> for the lock bits, each followed by the reception of one byte. For
  any device, if a method returns or raises, the calls it has made are these whole
  pairs up to some table.
\<close>

theorem read_commands:
  "(table_ok (fuse_low device) \<and> table_ok (fuse_high device)
      \<and> table_ok (fuse_extended device) \<longrightarrow>
      (\<exists>s'. read_fuses s device = Some (Inr (), s')))
   \<and> (table_ok (lock_bits device) \<longrightarrow> (\<exists>s'. read_lockbits s device = Some (Inr (), s')))
   \<and> (read_fuses s device = Some (r, s') \<longrightarrow>
        bus s' = bus s
          @ (if fuse_low device \<noteq> [] then [Transmit [0x50, 0x00, 0x00], Receive 1] else [])
      \<or> bus s' = bus s
          @ (if fuse_low device \<noteq> [] then [Transmit [0x50, 0x00, 0x00], Receive 1] else [])
          @ (if fuse_high device \<noteq> [] then [Transmit [0x58, 0x08, 0x00], Receive 1] else [])
      \<or> bus s' = bus s
          @ (if fuse_low device \<noteq> [] then [Transmit [0x50, 0x00, 0x00], Receive 1] else [])
          @ (if fuse_high device \<noteq> [] then [Transmit [0x58, 0x08, 0x00], Receive 1] else [])
          @ (if fuse_extended device \<noteq> [] then [Transmit [0x50, 0x08, 0x00], Receive 1] else []))
   \<and> (read_fuses s device = Some (Inr (), s') \<longrightarrow>
        bus s' = bus s
          @ (if fuse_low device \<noteq> [] then [Transmit [0x50, 0x00, 0x00], Receive 1] else [])
          @ (if fuse_high device \<noteq> [] then [Transmit [0x58, 0x08, 0x00], Receive 1] else [])
          @ (if fuse_extended device \<noteq> [] then [Transmit [0x50, 0x08, 0x00], Receive 1] else []))
   \<and> (read_lockbits s device = Some (r, s') \<longrightarrow>
        bus s' = bus s
          @ (if lock_bits device \<noteq> [] then [Transmit [0x58, 0x00, 0x00], Receive 1] else []))"
proof (intro conjI impI)
  let ?hd = "[''Fuse name'', ''Status'', ''Value'', ''Mask'']"
  let ?low = "read_block [0x50, 0x00, 0x00] ''Low fuse'' ?hd (fuse_low device)"
  let ?high = "read_block [0x58, 0x08, 0x00] ''High fuse'' ?hd (fuse_high device)"
  let ?ext = "read_block [0x50, 0x08, 0x00] ''Extended fuse'' ?hd (fuse_extended device)"
  {
    assume ok: "table_ok (fuse_low device) \<and> table_ok (fuse_high device)
      \<and> table_ok (fuse_extended device)"
    from ok obtain s1 where s1: "?low s = Some (Inr (), s1)"
      using read_block_ok by blast
    from ok obtain s2 where s2: "?high s1 = Some (Inr (), s2)"
      using read_block_ok by blast
    from ok obtain s3 where s3: "?ext s2 = Some (Inr (), s3)"
      using read_block_ok by blast
    from s1 s2 s3 show "\<exists>s'. read_fuses s device = Some (Inr (), s')"
      by (simp add: read_fuses_def)
  }
  {
    assume "table_ok (lock_bits device)"
    then show "\<exists>s'. read_lockbits s device = Some (Inr (), s')"
      unfolding read_lockbits_def by (rule read_block_ok)
  }
  {
    assume ret: "read_fuses s device = Some (r, s')"
    show "bus s' = bus s
          @ (if fuse_low device \<noteq> [] then [Transmit [0x50, 0x00, 0x00], Receive 1] else [])
      \<or> bus s' = bus s
          @ (if fuse_low device \<noteq> [] then [Transmit [0x50, 0x00, 0x00], Receive 1] else [])
          @ (if fuse_high device \<noteq> [] then [Transmit [0x58, 0x08, 0x00], Receive 1] else [])
      \<or> bus s' = bus s
          @ (if fuse_low device \<noteq> [] then [Transmit [0x50, 0x00, 0x00], Receive 1] else [])
          @ (if fuse_high device \<noteq> [] then [Transmit [0x58, 0x08, 0x00], Receive 1] else [])
          @ (if fuse_extended device \<noteq> [] then [Transmit [0x50, 0x08, 0x00], Receive 1] else [])"
    proof (cases "?low s")
      case None
      with ret show ?thesis by (simp add: read_fuses_def)
    next
      case (Some p1)
      obtain r1 s1 where p1: "p1 = (r1, s1)" by (cases p1)
      note b1 = read_block_bus [OF Some [unfolded p1]]
      show ?thesis
      proof (cases r1)
        case (Inl e)
        with ret Some p1 have "s' = s1" by (simp add: read_fuses_def)
        with b1 show ?thesis by simp
      next
        case (Inr u1)
        show ?thesis
        proof (cases "?high s1")
          case None
          with ret Some p1 Inr show ?thesis by (simp add: read_fuses_def)
        next
          case (Some p2)
          obtain r2 s2 where p2: "p2 = (r2, s2)" by (cases p2)
          note b2 = read_block_bus [OF Some [unfolded p2]]
          show ?thesis
          proof (cases r2)
            case (Inl e)
            with ret \<open>?low s = Some p1\<close> p1 \<open>r1 = Inr u1\<close> Some p2 have "s' = s2"
              by (simp add: read_fuses_def)
            with b1 b2 show ?thesis by simp
          next
            case (Inr u2)
            with ret \<open>?low s = Some p1\<close> p1 \<open>r1 = Inr u1\<close> Some p2
            have "?ext s2 = Some (r, s')"
              by (simp add: read_fuses_def)
            from read_block_bus [OF this] b1 b2 show ?thesis by simp
          qed
        qed
      qed
    qed
  }
  {
    assume ret: "read_fuses s device = Some (Inr (), s')"
    then obtain s1 s2 where "?low s = Some (Inr (), s1)" "?high s1 = Some (Inr (), s2)"
      "?ext s2 = Some (Inr (), s')"
      by (auto simp: read_fuses_def split: option.splits sum.splits)
    then show "bus s' = bus s
          @ (if fuse_low device \<noteq> [] then [Transmit [0x50, 0x00, 0x00], Receive 1] else [])
          @ (if fuse_high device \<noteq> [] then [Transmit [0x58, 0x08, 0x00], Receive 1] else [])
          @ (if fuse_extended device \<noteq> [] then [Transmit [0x50, 0x08, 0x00], Receive 1] else [])"
      using read_block_bus by fastforce
  }
  {
    assume "read_lockbits s device = Some (r, s')"
    then show "bus s' = bus s
          @ (if lock_bits device \<noteq> [] then [Transmit [0x58, 0x00, 0x00], Receive 1] else [])"
      unfolding read_lockbits_def by (rule read_block_bus)
  }
qed

theorem read_commands_witness:
  "table_ok (fuse_low sample_device) \<and> table_ok (fuse_high sample_device)
   \<and> table_ok (fuse_extended sample_device) \<and> table_ok (lock_bits sample_device)
   \<and> (\<exists>s'. read_fuses sample_session sample_device = Some (Inr (), s')
         \<and> bus s' = [Transmit [0x50, 0x00, 0x00], Receive 1,
                      Transmit [0x50, 0x08, 0x00], Receive 1])
   \<and> (\<exists>s'. read_lockbits sample_session sample_device = Some (Inr (), s')
         \<and> bus s' = [Transmit [0x58, 0x00, 0x00], Receive 1])"
proof -
  have ok: "table_ok (fuse_low sample_device)" "table_ok (fuse_high sample_device)"
    "table_ok (fuse_extended sample_device)" "table_ok (lock_bits sample_device)"
    by (simp_all add: sample_device_def sample_defs ok_defs int16_eval)
  note rc = read_commands [of sample_device sample_session]
  from rc ok obtain s1 where s1: "read_fuses sample_session sample_device = Some (Inr (), s1)"
    by blast
  from rc ok obtain s2 where s2: "read_lockbits sample_session sample_device = Some (Inr (), s2)"
    by blast
  from read_commands [of sample_device sample_session "Inr ()" s1] s1
  have b1: "bus s1 = [Transmit [0x50, 0x00, 0x00], Receive 1,
                      Transmit [0x50, 0x08, 0x00], Receive 1]"
    by (simp add: sample_device_def sample_session_def sample_table_def)
  from read_commands [of sample_device sample_session "Inr ()" s2] s2
  have b2: "bus s2 = [Transmit [0x58, 0x00, 0x00], Receive 1]"
    by (simp add: sample_device_def sample_session_def)
  from ok s1 s2 b1 b2 show ?thesis by blast
qed

end
